theory Spec2Isabelle
  imports Main
begin

section \<open>Python values\<close>

text \<open>
  The values that travel through the program are what \<open>response.json()\<close> returns, plus
  Python's \<open>None\<close>, which JSON \<open>null\<close> parses to. A dict is an association list; the
  first binding of a key is the one \<open>get\<close> finds. Numbers are integers here.
\<close>

datatype json =
    JNull
  | JBool bool
  | JNum int
  | JStr string
  | JList "json list"
  | JObj "(string \<times> json) list"

datatype exn =
    EnvironmentError
  | ValueError
  | AttributeError
  | TypeError
  | RequestException
  | OtherException

text \<open>Python truthiness, as tested by \<open>if not x\<close>.\<close>

fun truthy :: "json \<Rightarrow> bool" where
  "truthy JNull = False"
| "truthy (JBool b) = b"
| "truthy (JNum n) = (n \<noteq> 0)"
| "truthy (JStr s) = (s \<noteq> [])"
| "truthy (JList xs) = (xs \<noteq> [])"
| "truthy (JObj kvs) = (kvs \<noteq> [])"

text \<open>\<open>isinstance(x, dict)\<close> and \<open>isinstance(x, list)\<close>.\<close>

fun is_dict :: "json \<Rightarrow> bool" where
  "is_dict (JObj kvs) = True"
| "is_dict _ = False"

fun is_list :: "json \<Rightarrow> bool" where
  "is_list (JList xs) = True"
| "is_list _ = False"

text \<open>\<open>x.get(key, default)\<close>: only a dict has the method; anything else raises
  \<open>AttributeError\<close>.\<close>

definition dict_get :: "(string \<times> json) list \<Rightarrow> string \<Rightarrow> json \<Rightarrow> json" where
  "dict_get kvs k d = (case map_of kvs k of None \<Rightarrow> d | Some v \<Rightarrow> v)"

fun py_get :: "json \<Rightarrow> string \<Rightarrow> json \<Rightarrow> exn + json" where
  "py_get (JObj kvs) k d = Inr (dict_get kvs k d)"
| "py_get _ k d = Inl AttributeError"

text \<open>\<open>len(x)\<close>.\<close>

fun py_len :: "json \<Rightarrow> exn + int" where
  "py_len (JList xs) = Inr (int (length xs))"
| "py_len (JObj kvs) = Inr (int (length kvs))"
| "py_len (JStr s) = Inr (int (length s))"
| "py_len _ = Inl TypeError"

text \<open>\<open>for x in v\<close>: a list yields its elements, a dict its keys, a string its
  characters; a number or a boolean is not iterable.\<close>

fun py_iter :: "json \<Rightarrow> exn + json list" where
  "py_iter (JList xs) = Inr xs"
| "py_iter (JObj kvs) = Inr (map (\<lambda>kv. JStr (fst kv)) kvs)"
| "py_iter (JStr s) = Inr (map (\<lambda>c. JStr [c]) s)"
| "py_iter _ = Inl TypeError"

section \<open>The world outside the process\<close>

text \<open>
  An f-string whose holes are filled with values of unknown type is kept as its parts.
\<close>

datatype part = Lit string | Hole json

type_synonym fstring = "part list"

type_synonym headers = "(string \<times> string) list"

text \<open>One constructor per \<open>print\<close> statement of the three modules, with the
  interpolated values (the text of a caught exception is left out).\<close>

datatype log_msg =
    Checking_status nat int
  | Snapshot_ready
  | Snapshot_failed
  | Snapshot_running
  | Unexpected_status json
  | Poll_error
  | Poll_timed_out
  | Downloading
  | Download_complete int
  | Download_failed
  | Request_failed
  | Unexpected_api_error
  | Trigger_failed string
  | No_snapshot_id string
  | Snapshot_incomplete string
  | No_reddit_urls
  | Google_searching string
  | Bing_searching string
  | Reddit_searching string
  | Reddit_data json
  | Selected_urls_header
  | Selected_url nat string
  | Url_extraction_error
  | No_urls_to_fetch
  | Fetching_posts int
  | Posts_retrieved int
  | Posts_failed
  | Evaluating_google
  | Evaluating_bing
  | Evaluating_reddit
  | Merging

text \<open>The message pairs built by \<open>prompts.py\<close>: the stage fixes the two templates, the
  arguments are what is interpolated.\<close>

datatype prompt =
    Reddit_url_analysis string json
  | Google_analysis string json
  | Bing_analysis string json
  | Reddit_analysis string json json
  | Synthesis string "string option" "string option" "string option"

datatype event =
    Http_get fstring headers
  | Http_post string headers "(string \<times> string) list" json
  | Sleep int
  | Print log_msg
  | Invoke prompt
  | Invoke_structured prompt

text \<open>What one HTTP round trip gives back: \<open>Body j\<close> when the request succeeded, the
  status was no error and the body parsed to \<open>j\<close>; otherwise the exception that
  \<open>requests.get/post\<close>, \<open>raise_for_status\<close> or \<open>response.json\<close> raised.\<close>

datatype reply = Raises exn | Body json

text \<open>
  The environment holds the credential. The provider and the language model are scripts:
  the reply to the k-th HTTP request and to the k-th model call of the run. Everything the
  process does to the outside is appended to the trace.
\<close>

record world =
  api_key :: "string option"
  net :: "nat \<Rightarrow> reply"
  served :: nat
  chat :: "nat \<Rightarrow> exn + string"
  chat_urls :: "nat \<Rightarrow> exn + string list"
  asked :: nat
  trace :: "event list"

definition emit :: "event \<Rightarrow> world \<Rightarrow> world" where
  "emit e w = w\<lparr>trace := trace w @ [e]\<rparr>"

definition http :: "event \<Rightarrow> world \<Rightarrow> reply \<times> world" where
  "http req w = (net w (served w), w\<lparr>served := Suc (served w), trace := trace w @ [req]\<rparr>)"

text \<open>\<open>api_key = os.getenv("BRIGHTDATA_API_KEY"); if not api_key: raise EnvironmentError\<close>\<close>

definition getenv_api_key :: "world \<Rightarrow> exn + string" where
  "getenv_api_key w =
     (case api_key w of
        None \<Rightarrow> Inl EnvironmentError
      | Some k \<Rightarrow> if k = [] then Inl EnvironmentError else Inr k)"

section \<open>SnapshotOperation.py\<close>

definition progress_endpoint :: "json \<Rightarrow> fstring" where
  "progress_endpoint snapshot_id =
     [Lit ''https://api.brightdata.com/datasets/v3/progress/'', Hole snapshot_id]"

definition bearer :: "string \<Rightarrow> headers" where
  "bearer k = [(''Authorization'', ''Bearer '' @ k)]"

text \<open>The body of the \<open>try\<close> up to \<open>status = data.get("status")\<close>.\<close>

definition read_status :: "reply \<Rightarrow> exn + json" where
  "read_status r = (case r of Raises e \<Rightarrow> Inl e | Body data \<Rightarrow> py_get data ''status'' JNull)"

text \<open>
  One pass through the \<open>try\<close> block: \<open>Some b\<close> when it executes \<open>return b\<close>,
  \<open>None\<close> when control falls through to the \<open>time.sleep\<close> after it. Every exception
  raised inside is caught by \<open>except Exception\<close>.
\<close>

definition poll_once :: "json \<Rightarrow> int \<Rightarrow> string \<Rightarrow> nat \<Rightarrow> world \<Rightarrow> bool option \<times> world" where
  "poll_once snapshot_id max_retries k attempt w =
     (let w1 = emit (Print (Checking_status attempt max_retries)) w;
          (r, w2) = http (Http_get (progress_endpoint snapshot_id) (bearer k)) w1
      in case read_status r of
           Inr status \<Rightarrow>
             if status = JStr ''ready'' then (Some True, emit (Print Snapshot_ready) w2)
             else if status = JStr ''failed'' then (Some False, emit (Print Snapshot_failed) w2)
             else if status = JStr ''running'' then (None, emit (Print Snapshot_running) w2)
             else (None, emit (Print (Unexpected_status status)) w2)
         | Inl err \<Rightarrow> (None, emit (Print Poll_error) w2))"

text \<open>
  The loop \<open>for attempt in range(1, max_retries + 1)\<close> with \<open>left\<close> iterations to go.
  \<open>time.sleep\<close> stands outside the \<open>try\<close> and refuses a negative length.
\<close>

fun poll :: "json \<Rightarrow> int \<Rightarrow> int \<Rightarrow> string \<Rightarrow> nat \<Rightarrow> nat \<Rightarrow> world \<Rightarrow> (exn + bool) \<times> world" where
  "poll snapshot_id max_retries interval k attempt 0 w =
     (Inr False, emit (Print Poll_timed_out) w)"
| "poll snapshot_id max_retries interval k attempt (Suc left) w =
     (case poll_once snapshot_id max_retries k attempt w of
        (Some b, w') \<Rightarrow> (Inr b, w')
      | (None, w') \<Rightarrow>
          if interval < 0 then (Inl ValueError, w')
          else poll snapshot_id max_retries interval k (Suc attempt) left (emit (Sleep interval) w'))"

definition check_snapshot_status :: "json \<Rightarrow> int \<Rightarrow> int \<Rightarrow> world \<Rightarrow> (exn + bool) \<times> world" where
  "check_snapshot_status snapshot_id max_retries interval w =
     (case getenv_api_key w of
        Inl e \<Rightarrow> (Inl e, w)
      | Inr k \<Rightarrow> poll snapshot_id max_retries interval k 1 (nat max_retries) w)"

definition download_endpoint :: "json \<Rightarrow> string \<Rightarrow> fstring" where
  "download_endpoint snapshot_id file_format =
     [Lit ''https://api.brightdata.com/datasets/v3/snapshot/'', Hole snapshot_id,
      Lit ''?format='', Lit file_format]"

definition fetch_snapshot_data :: "json \<Rightarrow> string \<Rightarrow> world \<Rightarrow> (exn + json) \<times> world" where
  "fetch_snapshot_data snapshot_id file_format w =
     (case getenv_api_key w of
        Inl e \<Rightarrow> (Inl e, w)
      | Inr k \<Rightarrow>
          (let w1 = emit (Print Downloading) w;
               (r, w2) = http (Http_get (download_endpoint snapshot_id file_format) (bearer k)) w1
           in case r of
                Raises err \<Rightarrow> (Inr JNull, emit (Print Download_failed) w2)
              | Body data \<Rightarrow>
                  (let item_count = (case data of JList xs \<Rightarrow> int (length xs) | _ \<Rightarrow> 1)
                   in (Inr data, emit (Print (Download_complete item_count)) w2))))"

section \<open>webOperations.py\<close>

definition REDDIT_DISCOVERY_DATASET :: string where
  "REDDIT_DISCOVERY_DATASET = ''gd_lvz8ah06191smkebj4''"

definition REDDIT_POSTS_DATASET :: string where
  "REDDIT_POSTS_DATASET = ''gd_lvzdpsdlw09j6t702''"

definition BRIGHTDATA_API_BASE :: string where
  "BRIGHTDATA_API_BASE = ''https://api.brightdata.com''"

text \<open>
  \<open>_send_api_request(url, **kwargs)\<close>; the keyword arguments in use are \<open>params\<close> (empty
  when not passed) and \<open>json\<close>. The credential is read before the \<open>try\<close>.
\<close>

definition send_api_request ::
  "string \<Rightarrow> (string \<times> string) list \<Rightarrow> json \<Rightarrow> world \<Rightarrow> (exn + json) \<times> world" where
  "send_api_request url params payload w =
     (case getenv_api_key w of
        Inl e \<Rightarrow> (Inl e, w)
      | Inr k \<Rightarrow>
          (let hdrs = [(''Authorization'', ''Bearer '' @ k), (''Content-Type'', ''application/json'')];
               (r, w1) = http (Http_post url hdrs params payload) w
           in case r of
                Body j \<Rightarrow> (Inr j, w1)
              | Raises err \<Rightarrow>
                  if err = RequestException then (Inr JNull, emit (Print Request_failed) w1)
                  else (Inr JNull, emit (Print Unexpected_api_error) w1)))"

text \<open>
  \<open>urllib.parse.quote_plus\<close> on the bytes of the query: letters, digits and \<open>_.-~\<close>
  stay, a space becomes \<open>+\<close>, every other byte becomes \<open>%XX\<close>.
\<close>

definition hex_digit :: "nat \<Rightarrow> char" where
  "hex_digit n = ''0123456789ABCDEF'' ! (n mod 16)"

definition always_safe :: "char \<Rightarrow> bool" where
  "always_safe c =
     (c \<in> set ''ABCDEFGHIJKLMNOPQRSTUVWXYZabcdefghijklmnopqrstuvwxyz0123456789_.-~'')"

definition quote_char :: "char \<Rightarrow> string" where
  "quote_char c =
     (if always_safe c then [c]
      else if c = CHR '' '' then ''+''
      else [CHR ''%'', hex_digit (of_char c div 16), hex_digit (of_char c mod 16)])"

definition quote_plus :: "string \<Rightarrow> string" where
  "quote_plus s = concat (map quote_char s)"

definition base_urls :: "(string \<times> string) list" where
  "base_urls = [(''google'', ''https://www.google.com/search''),
                (''bing'', ''https://www.bing.com/search'')]"

definition serp_payload :: "string \<Rightarrow> string \<Rightarrow> json" where
  "serp_payload base query =
     JObj [(''zone'', JStr ''ai_agent2''),
           (''url'', JStr (base @ ''?q='' @ quote_plus query @ ''&brd_json=1'')),
           (''format'', JStr ''raw'')]"

definition serp_search :: "string \<Rightarrow> string \<Rightarrow> world \<Rightarrow> (exn + json) \<times> world" where
  "serp_search query engine w =
     (case map_of base_urls engine of
        None \<Rightarrow> (Inl ValueError, w)
      | Some base \<Rightarrow>
          (let api_url = BRIGHTDATA_API_BASE @ ''/request'';
               payload = serp_payload base query
           in case send_api_request api_url [] payload w of
                (Inl e, w1) \<Rightarrow> (Inl e, w1)
              | (Inr response_data, w1) \<Rightarrow>
                  if \<not> truthy response_data then (Inr JNull, w1)
                  else
                    (case py_get response_data ''knowledge'' (JObj []) of
                       Inl e \<Rightarrow> (Inl e, w1)
                     | Inr knowledge \<Rightarrow>
                         (case py_get response_data ''organic'' (JList []) of
                            Inl e \<Rightarrow> (Inl e, w1)
                          | Inr organic \<Rightarrow>
                              (Inr (JObj [(''knowledge'', knowledge), (''organic'', organic)]),
                               w1)))))"

text \<open>\<open>check_snapshot_status(snapshot_id)\<close> and \<open>fetch_snapshot_data(snapshot_id)\<close> are
  called with their defaults: 60 attempts, 5 seconds, format \<open>json\<close>.\<close>

definition execute_snapshot_pipeline ::
  "string \<Rightarrow> (string \<times> string) list \<Rightarrow> json \<Rightarrow> string \<Rightarrow> world \<Rightarrow> (exn + json) \<times> world" where
  "execute_snapshot_pipeline trigger_url params payload task_name w =
     (case send_api_request trigger_url params payload w of
        (Inl e, w1) \<Rightarrow> (Inl e, w1)
      | (Inr trigger_response, w1) \<Rightarrow>
          if \<not> truthy trigger_response then
            (Inr JNull, emit (Print (Trigger_failed task_name)) w1)
          else
            (case py_get trigger_response ''snapshot_id'' JNull of
               Inl e \<Rightarrow> (Inl e, w1)
             | Inr snapshot_id \<Rightarrow>
                 if \<not> truthy snapshot_id then
                   (Inr JNull, emit (Print (No_snapshot_id task_name)) w1)
                 else
                   (case check_snapshot_status snapshot_id 60 5 w1 of
                      (Inl e, w2) \<Rightarrow> (Inl e, w2)
                    | (Inr completed, w2) \<Rightarrow>
                        if \<not> completed then
                          (Inr JNull, emit (Print (Snapshot_incomplete task_name)) w2)
                        else fetch_snapshot_data snapshot_id ''json'' w2)))"

text \<open>
  The element of the comprehension \<open>[{...} for post in snapshot_data if isinstance(post, dict)]\<close>:
  \<open>None\<close> for an entry the \<open>if\<close> skips.
\<close>

definition post_record :: "json \<Rightarrow> json option" where
  "post_record post =
     (case post of
        JObj kvs \<Rightarrow>
          Some (JObj [(''title'', dict_get kvs ''title'' JNull), (''url'', dict_get kvs ''url'' JNull)])
      | _ \<Rightarrow> None)"

definition trigger_url :: string where
  "trigger_url = BRIGHTDATA_API_BASE @ ''/datasets/v3/trigger''"

definition search_params :: "(string \<times> string) list" where
  "search_params =
     [(''dataset_id'', REDDIT_DISCOVERY_DATASET), (''include_errors'', ''true''),
      (''type'', ''discover_new''), (''discover_by'', ''keyword'')]"

definition search_payload :: "string \<Rightarrow> string \<Rightarrow> string \<Rightarrow> int \<Rightarrow> json" where
  "search_payload keyword date sort_by num_of_posts =
     JList [JObj [(''keyword'', JStr keyword), (''date'', JStr date),
                  (''sort_by'', JStr sort_by), (''num_of_posts'', JNum num_of_posts)]]"

definition reddit_search_api ::
  "string \<Rightarrow> string \<Rightarrow> string \<Rightarrow> int \<Rightarrow> world \<Rightarrow> (exn + json) \<times> world" where
  "reddit_search_api keyword date sort_by num_of_posts w =
     (case execute_snapshot_pipeline trigger_url search_params
             (search_payload keyword date sort_by num_of_posts) ''reddit search'' w of
        (Inl e, w1) \<Rightarrow> (Inl e, w1)
      | (Inr snapshot_data, w1) \<Rightarrow>
          if \<not> truthy snapshot_data then (Inr JNull, w1)
          else
            (case py_iter snapshot_data of
               Inl e \<Rightarrow> (Inl e, w1)
             | Inr entries \<Rightarrow>
                 (let parsed_posts = List.map_filter post_record entries
                  in (Inr (JObj [(''parsed_posts'', JList parsed_posts),
                                 (''total_found'', JNum (int (length parsed_posts)))]),
                      w1))))"

definition comment_record :: "json \<Rightarrow> json option" where
  "comment_record comment =
     (case comment of
        JObj kvs \<Rightarrow>
          Some (JObj [(''comment_id'', dict_get kvs ''comment_id'' JNull),
                      (''content'', dict_get kvs ''comment'' JNull),
                      (''date'', dict_get kvs ''date_posted'' JNull)])
      | _ \<Rightarrow> None)"

definition retrieval_params :: "(string \<times> string) list" where
  "retrieval_params = [(''dataset_id'', REDDIT_POSTS_DATASET), (''include_errors'', ''true'')]"

definition retrieval_payload :: "string list \<Rightarrow> int \<Rightarrow> bool \<Rightarrow> string \<Rightarrow> json" where
  "retrieval_payload urls days_back load_all_replies comment_limit =
     JList (map (\<lambda>url. JObj [(''url'', JStr url), (''days_back'', JNum days_back),
                              (''load_all_replies'', JBool load_all_replies),
                              (''comment_limit'', JStr comment_limit)]) urls)"

definition reddit_post_retrieval ::
  "string list \<Rightarrow> int \<Rightarrow> bool \<Rightarrow> string \<Rightarrow> world \<Rightarrow> (exn + json) \<times> world" where
  "reddit_post_retrieval urls days_back load_all_replies comment_limit w =
     (if urls = [] then (Inr JNull, emit (Print No_reddit_urls) w)
      else
        (case execute_snapshot_pipeline trigger_url retrieval_params
                (retrieval_payload urls days_back load_all_replies comment_limit)
                ''reddit comments'' w of
           (Inl e, w1) \<Rightarrow> (Inl e, w1)
         | (Inr snapshot_data, w1) \<Rightarrow>
             if \<not> truthy snapshot_data then (Inr JNull, w1)
             else
               (case py_iter snapshot_data of
                  Inl e \<Rightarrow> (Inl e, w1)
                | Inr entries \<Rightarrow>
                    (let parsed_comments = List.map_filter comment_record entries
                     in (Inr (JObj [(''comments'', JList parsed_comments),
                                    (''total_retrieved'', JNum (int (length parsed_comments)))]),
                         w1)))))"

section \<open>main.py\<close>

subsection \<open>ResearchState and the patches the nodes return\<close>

text \<open>
  Every key is present from the start (\<open>start_agent\<close> builds the dictionary with all of
  them), so \<open>state.get(key, default)\<close> is the field. The query is the line read by
  \<open>input\<close>, a string. \<open>None\<close> is \<open>JNull\<close> in the fields that hold provider data and
  \<open>None\<close> in the others.
\<close>

record research_state =
  messages :: "(string \<times> string) list"
  user_query :: string
  google_output :: json
  bing_output :: json
  reddit_output :: json
  chosen_reddit_urls :: "string list option"
  reddit_posts_data :: json
  google_summary :: "string option"
  bing_summary :: "string option"
  reddit_summary :: "string option"
  final_summary :: "string option"

text \<open>A node returns a dictionary with some of the keys; one constructor per key.\<close>

datatype update =
    Set_google_output json
  | Set_bing_output json
  | Set_reddit_output json
  | Set_chosen_reddit_urls "string list"
  | Set_reddit_posts_data json
  | Set_google_summary string
  | Set_bing_summary string
  | Set_reddit_summary string
  | Set_final_summary string
  | Add_messages "(string \<times> string) list"

type_synonym patch = "update list"

subsection \<open>The language model\<close>

text \<open>\<open>llm.invoke(prompts).content\<close>, and \<open>structured_llm.invoke(prompts).selected_urls\<close>
  with the schema \<open>RedditURLSelection\<close>.\<close>

definition invoke :: "prompt \<Rightarrow> world \<Rightarrow> (exn + string) \<times> world" where
  "invoke p w = (chat w (asked w), w\<lparr>asked := Suc (asked w), trace := trace w @ [Invoke p]\<rparr>)"

definition invoke_structured :: "prompt \<Rightarrow> world \<Rightarrow> (exn + string list) \<times> world" where
  "invoke_structured p w =
     (chat_urls w (asked w),
      w\<lparr>asked := Suc (asked w), trace := trace w @ [Invoke_structured p]\<rparr>)"

subsection \<open>Core search nodes\<close>

definition perform_google_search :: "research_state \<Rightarrow> world \<Rightarrow> (exn + patch) \<times> world" where
  "perform_google_search state w =
     (let query = user_query state;
          w1 = emit (Print (Google_searching query)) w
      in case serp_search query ''google'' w1 of
           (Inl e, w2) \<Rightarrow> (Inl e, w2)
         | (Inr r, w2) \<Rightarrow> (Inr [Set_google_output r], w2))"

definition perform_bing_search :: "research_state \<Rightarrow> world \<Rightarrow> (exn + patch) \<times> world" where
  "perform_bing_search state w =
     (let query = user_query state;
          w1 = emit (Print (Bing_searching query)) w
      in case serp_search query ''bing'' w1 of
           (Inl e, w2) \<Rightarrow> (Inl e, w2)
         | (Inr r, w2) \<Rightarrow> (Inr [Set_bing_output r], w2))"

definition perform_reddit_search :: "research_state \<Rightarrow> world \<Rightarrow> (exn + patch) \<times> world" where
  "perform_reddit_search state w =
     (let query = user_query state;
          w1 = emit (Print (Reddit_searching query)) w
      in case reddit_search_api query ''All time'' ''Hot'' 75 w1 of
           (Inl e, w2) \<Rightarrow> (Inl e, w2)
         | (Inr reddit_data, w2) \<Rightarrow>
             (Inr [Set_reddit_output reddit_data], emit (Print (Reddit_data reddit_data)) w2))"

subsection \<open>Reddit URL filtering and post retrieval\<close>

definition print_selected :: "string list \<Rightarrow> event list" where
  "print_selected urls =
     Print Selected_urls_header #
     map (\<lambda>(idx, u). Print (Selected_url idx u)) (zip [1 ..< Suc (length urls)] urls)"

definition extract_reddit_urls :: "research_state \<Rightarrow> world \<Rightarrow> (exn + patch) \<times> world" where
  "extract_reddit_urls state w =
     (let query = user_query state;
          reddit_raw = reddit_output state
      in if \<not> truthy reddit_raw then (Inr [Set_chosen_reddit_urls []], w)
         else
           (let prompts = Reddit_url_analysis query reddit_raw
            in case invoke_structured prompts w of
                 (Inr urls, w1) \<Rightarrow>
                   (Inr [Set_chosen_reddit_urls urls], w1\<lparr>trace := trace w1 @ print_selected urls\<rparr>)
               | (Inl e, w1) \<Rightarrow>
                   (Inr [Set_chosen_reddit_urls []], emit (Print Url_extraction_error) w1)))"

definition fetch_reddit_posts :: "research_state \<Rightarrow> world \<Rightarrow> (exn + patch) \<times> world" where
  "fetch_reddit_posts state w =
     (case chosen_reddit_urls state of
        None \<Rightarrow> (Inr [Set_reddit_posts_data (JList [])], emit (Print No_urls_to_fetch) w)
      | Some urls \<Rightarrow>
          if urls = [] then
            (Inr [Set_reddit_posts_data (JList [])], emit (Print No_urls_to_fetch) w)
          else
            (let w1 = emit (Print (Fetching_posts (int (length urls)))) w
             in case reddit_post_retrieval urls 10 False [] w1 of
                  (Inl e, w2) \<Rightarrow> (Inl e, w2)
                | (Inr posts, w2) \<Rightarrow>
                    if truthy posts then
                      (case py_len posts of
                         Inl e \<Rightarrow> (Inl e, w2)
                       | Inr n \<Rightarrow> (Inr [Set_reddit_posts_data posts], emit (Print (Posts_retrieved n)) w2))
                    else (Inr [Set_reddit_posts_data (JList [])], emit (Print Posts_failed) w2)))"

subsection \<open>Analysis nodes and the final synthesis\<close>

definition analyze_google_data :: "research_state \<Rightarrow> world \<Rightarrow> (exn + patch) \<times> world" where
  "analyze_google_data state w =
     (let w1 = emit (Print Evaluating_google) w;
          prompts = Google_analysis (user_query state) (google_output state)
      in case invoke prompts w1 of
           (Inl e, w2) \<Rightarrow> (Inl e, w2)
         | (Inr content, w2) \<Rightarrow> (Inr [Set_google_summary content], w2))"

definition analyze_bing_data :: "research_state \<Rightarrow> world \<Rightarrow> (exn + patch) \<times> world" where
  "analyze_bing_data state w =
     (let w1 = emit (Print Evaluating_bing) w;
          prompts = Bing_analysis (user_query state) (bing_output state)
      in case invoke prompts w1 of
           (Inl e, w2) \<Rightarrow> (Inl e, w2)
         | (Inr content, w2) \<Rightarrow> (Inr [Set_bing_summary content], w2))"

definition analyze_reddit_data :: "research_state \<Rightarrow> world \<Rightarrow> (exn + patch) \<times> world" where
  "analyze_reddit_data state w =
     (let w1 = emit (Print Evaluating_reddit) w;
          prompts = Reddit_analysis (user_query state) (reddit_output state) (reddit_posts_data state)
      in case invoke prompts w1 of
           (Inl e, w2) \<Rightarrow> (Inl e, w2)
         | (Inr content, w2) \<Rightarrow> (Inr [Set_reddit_summary content], w2))"

definition combine_insights :: "research_state \<Rightarrow> world \<Rightarrow> (exn + patch) \<times> world" where
  "combine_insights state w =
     (let w1 = emit (Print Merging) w;
          prompts = Synthesis (user_query state) (google_summary state) (bing_summary state)
                      (reddit_summary state)
      in case invoke prompts w1 of
           (Inl e, w2) \<Rightarrow> (Inl e, w2)
         | (Inr final, w2) \<Rightarrow>
             (Inr [Set_final_summary final, Add_messages [(''assistant'', final)]], w2))"

subsection \<open>Graph construction\<close>

datatype node =
    Google_search
  | Bing_search
  | Reddit_search
  | Extract_reddit_urls
  | Fetch_reddit_posts
  | Analyze_google
  | Analyze_bing
  | Analyze_reddit
  | Synthesize_results

text \<open>\<open>workflow.add_node(name, function)\<close>\<close>

fun node_function :: "node \<Rightarrow> research_state \<Rightarrow> world \<Rightarrow> (exn + patch) \<times> world" where
  "node_function Google_search = perform_google_search"
| "node_function Bing_search = perform_bing_search"
| "node_function Reddit_search = perform_reddit_search"
| "node_function Extract_reddit_urls = extract_reddit_urls"
| "node_function Fetch_reddit_posts = fetch_reddit_posts"
| "node_function Analyze_google = analyze_google_data"
| "node_function Analyze_bing = analyze_bing_data"
| "node_function Analyze_reddit = analyze_reddit_data"
| "node_function Synthesize_results = combine_insights"

text \<open>\<open>workflow.add_edge(a, b)\<close> between nodes; the edges from \<open>START\<close> to the three
  searches and from \<open>synthesize_results\<close> to \<open>END\<close> put no constraint on a node.\<close>

definition edges :: "(node \<times> node) list" where
  "edges =
     [(Google_search, Extract_reddit_urls),
      (Bing_search, Extract_reddit_urls),
      (Reddit_search, Extract_reddit_urls),
      (Extract_reddit_urls, Fetch_reddit_posts),
      (Fetch_reddit_posts, Analyze_google),
      (Fetch_reddit_posts, Analyze_bing),
      (Fetch_reddit_posts, Analyze_reddit),
      (Analyze_google, Synthesize_results),
      (Analyze_bing, Synthesize_results),
      (Analyze_reddit, Synthesize_results)]"

subsection \<open>The graph engine\<close>

text \<open>
  The engine is a library outside the repository; what it does is taken from the
  specification of the graph: it merges the patch of a node into the state, key by key (the
  \<open>messages\<close> key appends, the others overwrite); it runs every node once, a node only
  after all nodes with an edge into it; an exception raised by a node ends the run. Nodes
  that may run side by side write different keys and read none of each other's, so running
  them one after the other in any admissible order covers the states a run passes through.
\<close>

fun apply_update :: "research_state \<Rightarrow> update \<Rightarrow> research_state" where
  "apply_update s (Set_google_output v) = s\<lparr>google_output := v\<rparr>"
| "apply_update s (Set_bing_output v) = s\<lparr>bing_output := v\<rparr>"
| "apply_update s (Set_reddit_output v) = s\<lparr>reddit_output := v\<rparr>"
| "apply_update s (Set_chosen_reddit_urls us) = s\<lparr>chosen_reddit_urls := Some us\<rparr>"
| "apply_update s (Set_reddit_posts_data v) = s\<lparr>reddit_posts_data := v\<rparr>"
| "apply_update s (Set_google_summary t) = s\<lparr>google_summary := Some t\<rparr>"
| "apply_update s (Set_bing_summary t) = s\<lparr>bing_summary := Some t\<rparr>"
| "apply_update s (Set_reddit_summary t) = s\<lparr>reddit_summary := Some t\<rparr>"
| "apply_update s (Set_final_summary t) = s\<lparr>final_summary := Some t\<rparr>"
| "apply_update s (Add_messages ms) = s\<lparr>messages := messages s @ ms\<rparr>"

definition merge :: "research_state \<Rightarrow> patch \<Rightarrow> research_state" where
  "merge s p = foldl apply_update s p"

definition predecessors :: "node \<Rightarrow> node list" where
  "predecessors n = map fst (filter (\<lambda>e. snd e = n) edges)"

text \<open>\<open>admissible finished ns\<close>: after the nodes \<open>finished\<close>, the nodes \<open>ns\<close> can run
  in this order.\<close>

fun admissible :: "node list \<Rightarrow> node list \<Rightarrow> bool" where
  "admissible finished [] = True"
| "admissible finished (n # ns) =
     (n \<notin> set finished \<and> set (predecessors n) \<subseteq> set finished \<and> admissible (n # finished) ns)"

fun run_nodes :: "node list \<Rightarrow> research_state \<Rightarrow> world \<Rightarrow> (exn + research_state) \<times> world" where
  "run_nodes [] s w = (Inr s, w)"
| "run_nodes (n # ns) s w =
     (case node_function n s w of
        (Inl e, w1) \<Rightarrow> (Inl e, w1)
      | (Inr p, w1) \<Rightarrow> run_nodes ns (merge s p) w1)"

text \<open>The state \<open>start_agent\<close> hands to \<open>compiled_graph.invoke\<close>.\<close>

definition initial_state :: "string \<Rightarrow> research_state" where
  "initial_state query =
     \<lparr>messages = [(''user'', query)], user_query = query,
      google_output = JNull, bing_output = JNull, reddit_output = JNull,
      chosen_reddit_urls = None, reddit_posts_data = JNull,
      google_summary = None, bing_summary = None, reddit_summary = None,
      final_summary = None\<rparr>"

section \<open>Notions used to state the properties\<close>

text \<open>A poll observes a terminal status when the \<open>try\<close> block reads \<open>ready\<close> or \<open>failed\<close>.\<close>

definition terminal :: "reply \<Rightarrow> bool" where
  "terminal r = (read_status r = Inr (JStr ''ready'') \<or> read_status r = Inr (JStr ''failed''))"

text \<open>The trace without what is printed: requests, sleeps and model calls.\<close>

fun is_print :: "event \<Rightarrow> bool" where
  "is_print (Print m) = True"
| "is_print _ = False"

definition io :: "event list \<Rightarrow> event list" where
  "io es = filter (\<lambda>e. \<not> is_print e) es"

fun is_request :: "event \<Rightarrow> bool" where
  "is_request (Http_get u h) = True"
| "is_request (Http_post u h ps b) = True"
| "is_request _ = False"

text \<open>A world with the credential set, nothing done yet, and the given scripts.\<close>

definition fresh_world :: "(nat \<Rightarrow> reply) \<Rightarrow> (nat \<Rightarrow> exn + string) \<Rightarrow> (nat \<Rightarrow> exn + string list) \<Rightarrow> world" where
  "fresh_world provider model selector =
     \<lparr>api_key = Some ''key'', net = provider, served = 0, chat = model, chat_urls = selector,
      asked = 0, trace = []\<rparr>"

definition status_reply :: "string \<Rightarrow> reply" where
  "status_reply s = Body (JObj [(''status'', JStr s)])"

text \<open>Provider scripts for the polling examples: a provider whose progress endpoint
  alternates between a transport error and \<open>running\<close> for ever, and one that answers
  \<open>ready\<close> at the third request.\<close>

definition flaky_world :: world where
  "flaky_world =
     fresh_world (\<lambda>i. if even i then Raises RequestException else status_reply ''running'')
       (\<lambda>i. Inl OtherException) (\<lambda>i. Inl OtherException)"

definition ready_third_world :: world where
  "ready_third_world =
     fresh_world (\<lambda>i. if i = 2 then status_reply ''ready'' else status_reply ''running'')
       (\<lambda>i. Inl OtherException) (\<lambda>i. Inl OtherException)"

text \<open>The request a SERP search is expected to send for a base URL and a query.\<close>

definition serp_request :: "string \<Rightarrow> string \<Rightarrow> string \<Rightarrow> event" where
  "serp_request k base query =
     Http_post ''https://api.brightdata.com/request''
       [(''Authorization'', ''Bearer '' @ k), (''Content-Type'', ''application/json'')] []
       (JObj [(''zone'', JStr ''ai_agent2''),
              (''url'', JStr (base @ ''?q='' @ quote_plus query @ ''&brd_json=1'')),
              (''format'', JStr ''raw'')])"

text \<open>A provider that answers every request with the empty object, one that answers
  \<open>null\<close>, one whose requests all fail, one that answers a SERP request with a knowledge
  panel and two organic results, and a process without the credential.\<close>

definition empty_object_world :: world where
  "empty_object_world =
     fresh_world (\<lambda>i. Body (JObj [])) (\<lambda>i. Inl OtherException) (\<lambda>i. Inl OtherException)"

definition null_reply_world :: world where
  "null_reply_world =
     fresh_world (\<lambda>i. Body JNull) (\<lambda>i. Inl OtherException) (\<lambda>i. Inl OtherException)"

definition failing_provider_world :: world where
  "failing_provider_world =
     fresh_world (\<lambda>i. Raises RequestException) (\<lambda>i. Inl OtherException)
       (\<lambda>i. Inl OtherException)"

definition serp_world :: world where
  "serp_world =
     fresh_world
       (\<lambda>i. Body (JObj [(''organic'', JList [JStr ''r1'', JStr ''r2'']),
                          (''knowledge'', JObj [(''name'', JStr ''n'')]),
                          (''extra'', JNum 1)]))
       (\<lambda>i. Inl OtherException) (\<lambda>i. Inl OtherException)"

definition no_key_world :: world where
  "no_key_world = (fresh_world (\<lambda>i. Body (JObj [])) (\<lambda>i. Inr ''text'') (\<lambda>i. Inr []))\<lparr>api_key := None\<rparr>"

text \<open>A provider that accepts a trigger, reports \<open>ready\<close> at the first poll and delivers
  the given download.\<close>

definition snapshot_world :: "json \<Rightarrow> world" where
  "snapshot_world download =
     fresh_world
       (\<lambda>i. if i = 0 then Body (JObj [(''snapshot_id'', JStr ''s1'')])
             else if i = 1 then status_reply ''ready''
             else Body download)
       (\<lambda>i. Inr ''text'') (\<lambda>i. Inr [])"

definition mixed_posts :: json where
  "mixed_posts =
     JList [JObj [(''title'', JStr ''t1''), (''url'', JStr ''u1'')], JNum 5, JStr ''x'',
            JObj [(''url'', JStr ''u2'')], JList [], JNull]"

definition mixed_comments :: json where
  "mixed_comments =
     JList [JNull,
            JObj [(''comment_id'', JStr ''c1''), (''comment'', JStr ''hello''),
                  (''date_posted'', JStr ''d1'')],
            JBool True]"

text \<open>States and worlds for the Reddit branch: no Reddit search result, one search
  result, and a language model that fails on every call.\<close>

definition no_reddit_state :: research_state where
  "no_reddit_state = initial_state ''q''"

definition reddit_found_state :: research_state where
  "reddit_found_state =
     (initial_state ''q'')\<lparr>reddit_output :=
        JObj [(''parsed_posts'', JList [JObj [(''title'', JStr ''t1''), (''url'', JStr ''u1'')]]),
              (''total_found'', JNum 1)]\<rparr>"

definition one_url_state :: research_state where
  "one_url_state = reddit_found_state\<lparr>chosen_reddit_urls := Some [''u1'']\<rparr>"

definition model_down_world :: world where
  "model_down_world =
     fresh_world (\<lambda>i. Raises RequestException) (\<lambda>i. Inl OtherException)
       (\<lambda>i. Inl OtherException)"

text \<open>A run in which every provider request fails and the model answers every call.\<close>

definition provider_down_world :: world where
  "provider_down_world =
     fresh_world (\<lambda>i. Raises RequestException) (\<lambda>i. Inr ''summary'') (\<lambda>i. Inr [])"

definition full_schedule :: "node list" where
  "full_schedule =
     [Google_search, Bing_search, Reddit_search, Extract_reddit_urls, Fetch_reddit_posts,
      Analyze_google, Analyze_bing, Analyze_reddit, Synthesize_results]"

definition degraded_state :: research_state where
  "degraded_state =
     \<lparr>messages = [(''user'', ''q''), (''assistant'', ''summary'')], user_query = ''q'',
      google_output = JNull, bing_output = JNull, reddit_output = JNull,
      chosen_reddit_urls = Some [], reddit_posts_data = JList [],
      google_summary = Some ''summary'', bing_summary = Some ''summary'',
      reddit_summary = Some ''summary'', final_summary = Some ''summary''\<rparr>"

text \<open>A run in which both SERP requests, the trigger, the first poll and the download
  succeed and the model selects no URL, with the state it ends in.\<close>

definition healthy_world :: world where
  "healthy_world =
     fresh_world
       (\<lambda>i. if i = 0 then Body (JObj [(''organic'', JList [JStr ''g1''])])
             else if i = 1 then Body (JObj [(''knowledge'', JObj [(''name'', JStr ''b'')])])
             else if i = 2 then Body (JObj [(''snapshot_id'', JStr ''s1'')])
             else if i = 3 then status_reply ''ready''
             else Body (JList [JObj [(''title'', JStr ''t1''), (''url'', JStr ''u1'')]]))
       (\<lambda>i. Inr ''summary'') (\<lambda>i. Inr [])"

definition healthy_state :: research_state where
  "healthy_state =
     \<lparr>messages = [(''user'', ''q''), (''assistant'', ''summary'')], user_query = ''q'',
      google_output = JObj [(''knowledge'', JObj []), (''organic'', JList [JStr ''g1''])],
      bing_output = JObj [(''knowledge'', JObj [(''name'', JStr ''b'')]), (''organic'', JList [])],
      reddit_output =
        JObj [(''parsed_posts'', JList [JObj [(''title'', JStr ''t1''), (''url'', JStr ''u1'')]]),
              (''total_found'', JNum 1)],
      chosen_reddit_urls = Some [], reddit_posts_data = JList [],
      google_summary = Some ''summary'', bing_summary = Some ''summary'',
      reddit_summary = Some ''summary'', final_summary = Some ''summary''\<rparr>"

text \<open>The invariant of a run: a summary is set exactly when its node has run; and a set
  of nodes that contains, with a node, the sources of its edges.\<close>

definition summaries_match_runs :: "node list \<Rightarrow> research_state \<Rightarrow> bool" where
  "summaries_match_runs finished s =
     ((google_summary s \<noteq> None) = (Analyze_google \<in> set finished) \<and>
      (bing_summary s \<noteq> None) = (Analyze_bing \<in> set finished) \<and>
      (reddit_summary s \<noteq> None) = (Analyze_reddit \<in> set finished) \<and>
      (final_summary s \<noteq> None) = (Synthesize_results \<in> set finished))"

definition closed_under_edges :: "node list \<Rightarrow> bool" where
  "closed_under_edges finished = (\<forall>n \<in> set finished. set (predecessors n) \<subseteq> set finished)"

section \<open>The polling loop\<close>

lemma poll_once_nonterminal:
  assumes "\<not> terminal (net w (served w))"
  shows "fst (poll_once sid m k a w) = None"
    and "served (snd (poll_once sid m k a w)) = Suc (served w)"
    and "net (snd (poll_once sid m k a w)) = net w"
    and "io (trace (snd (poll_once sid m k a w))) =
           io (trace w) @ [Http_get (progress_endpoint sid) (bearer k)]"
  using assms
  by (auto simp: poll_once_def terminal_def http_def emit_def io_def Let_def split: sum.splits)

lemma poll_once_terminal:
  assumes "terminal (net w (served w))"
  shows "fst (poll_once sid m k a w) = Some (read_status (net w (served w)) = Inr (JStr ''ready''))"
    and "served (snd (poll_once sid m k a w)) = Suc (served w)"
    and "net (snd (poll_once sid m k a w)) = net w"
    and "io (trace (snd (poll_once sid m k a w))) =
           io (trace w) @ [Http_get (progress_endpoint sid) (bearer k)]"
  using assms
  by (auto simp: poll_once_def terminal_def http_def emit_def io_def Let_def split: sum.splits)

text \<open>As long as no poll sees a terminal status, the loop runs all its iterations, each one
  request followed by one sleep.\<close>

lemma poll_timeout:
  assumes "0 \<le> interval"
  shows "\<forall>i<left. \<not> terminal (net w (served w + i)) \<Longrightarrow>
    fst (poll sid m interval k a left w) = Inr False \<and>
    served (snd (poll sid m interval k a left w)) = served w + left \<and>
    io (trace (snd (poll sid m interval k a left w))) =
      io (trace w) @
      concat (replicate left [Http_get (progress_endpoint sid) (bearer k), Sleep interval])"
proof (induction left arbitrary: a w)
  case 0
  show ?case by (simp add: emit_def io_def)
next
  case (Suc left)
  obtain r w1 where po: "poll_once sid m k a w = (r, w1)"
    by (cases "poll_once sid m k a w")
  from Suc.prems have nt: "\<not> terminal (net w (served w))"
    by (metis add.right_neutral zero_less_Suc)
  from poll_once_nonterminal[OF nt, of sid m k a] po
  have r: "r = None" and s1: "served w1 = Suc (served w)" and n1: "net w1 = net w"
    and t1: "io (trace w1) = io (trace w) @ [Http_get (progress_endpoint sid) (bearer k)]"
    by simp_all
  let ?w2 = "emit (Sleep interval) w1"
  have s2: "served ?w2 = Suc (served w)" and n2: "net ?w2 = net w"
    and t2: "io (trace ?w2) =
             io (trace w) @ [Http_get (progress_endpoint sid) (bearer k), Sleep interval]"
    using s1 n1 t1 by (simp_all add: emit_def io_def)
  have "\<forall>i<left. \<not> terminal (net ?w2 (served ?w2 + i))"
    using Suc.prems by (simp add: s2 n2) (metis Suc_less_eq add_Suc_right)
  from Suc.IH[OF this, of "Suc a"] po r assms show ?case
    by (simp add: s2 t2)
qed

text \<open>The first poll that sees a terminal status ends the loop.\<close>

lemma poll_terminal:
  assumes "0 \<le> interval"
  shows "j < left \<Longrightarrow> \<forall>i<j. \<not> terminal (net w (served w + i)) \<Longrightarrow>
    terminal (net w (served w + j)) \<Longrightarrow>
    fst (poll sid m interval k a left w) =
      Inr (read_status (net w (served w + j)) = Inr (JStr ''ready'')) \<and>
    served (snd (poll sid m interval k a left w)) = served w + j + 1 \<and>
    io (trace (snd (poll sid m interval k a left w))) =
      io (trace w) @
      concat (replicate j [Http_get (progress_endpoint sid) (bearer k), Sleep interval]) @
      [Http_get (progress_endpoint sid) (bearer k)]"
proof (induction j arbitrary: a w left)
  case 0
  then obtain left' where left: "left = Suc left'" by (cases left) auto
  obtain r w1 where po: "poll_once sid m k a w = (r, w1)"
    by (cases "poll_once sid m k a w")
  from "0.prems" have t: "terminal (net w (served w))" by simp
  from poll_once_terminal[OF t, of sid m k a] po show ?case
    by (simp add: left)
next
  case (Suc j)
  then obtain left' where left: "left = Suc left'" and j: "j < left'" by (cases left) auto
  obtain r w1 where po: "poll_once sid m k a w = (r, w1)"
    by (cases "poll_once sid m k a w")
  from Suc.prems have nt: "\<not> terminal (net w (served w))"
    by (metis add.right_neutral zero_less_Suc)
  from poll_once_nonterminal[OF nt, of sid m k a] po
  have r: "r = None" and s1: "served w1 = Suc (served w)" and n1: "net w1 = net w"
    and t1: "io (trace w1) = io (trace w) @ [Http_get (progress_endpoint sid) (bearer k)]"
    by simp_all
  let ?w2 = "emit (Sleep interval) w1"
  have s2: "served ?w2 = Suc (served w)" and n2: "net ?w2 = net w"
    and t2: "io (trace ?w2) =
             io (trace w) @ [Http_get (progress_endpoint sid) (bearer k), Sleep interval]"
    using s1 n1 t1 by (simp_all add: emit_def io_def)
  have a: "\<forall>i<j. \<not> terminal (net ?w2 (served ?w2 + i))"
    using Suc.prems(2) by (simp add: s2 n2) (metis Suc_less_eq add_Suc_right)
  have b: "terminal (net ?w2 (served ?w2 + j))"
    using Suc.prems(3) by (simp add: s2 n2)
  from Suc.IH[OF j a b, of "Suc a"] po r assms show ?case
    by (simp add: s2 t2 n2 left)
qed

text \<open>
  C1. With the credential set and a sleep length that is not negative (the default is 5),
  whenever none of the first \<open>max_retries\<close> polls (the default is 60) observes the status
  \<open>ready\<close> or \<open>failed\<close>, \<open>check_snapshot_status\<close> returns \<open>False\<close>. It has then sent exactly
  \<open>max_retries\<close> progress requests and slept \<open>interval\<close> seconds after each of them, so also
  between any two. A poll that ends in a transport or parse error, or that reads any other
  status, counts as one of these attempts.
\<close>

theorem check_snapshot_status_times_out:
  assumes "getenv_api_key w = Inr k"
    and "0 \<le> interval"
    and "\<forall>i < nat max_retries. \<not> terminal (net w (served w + i))"
  shows "fst (check_snapshot_status sid max_retries interval w) = Inr False \<and>
    served (snd (check_snapshot_status sid max_retries interval w)) = served w + nat max_retries \<and>
    io (trace (snd (check_snapshot_status sid max_retries interval w))) =
      io (trace w) @
      concat (replicate (nat max_retries)
                [Http_get (progress_endpoint sid) (bearer k), Sleep interval])"
  using poll_timeout[OF assms(2) assms(3), of sid max_retries k 1] assms(1)
  by (simp add: check_snapshot_status_def)

theorem check_snapshot_status_times_out_witness:
  "getenv_api_key flaky_world = Inr ''key'' \<and>
   \<not> terminal (net flaky_world (served flaky_world + 59)) \<and>
   fst (check_snapshot_status (JStr ''s1'') 60 5 flaky_world) = Inr False \<and>
   served (snd (check_snapshot_status (JStr ''s1'') 60 5 flaky_world)) = 60 \<and>
   io (trace (snd (check_snapshot_status (JStr ''s1'') 60 5 flaky_world))) =
     concat (replicate 60 [Http_get (progress_endpoint (JStr ''s1'')) (bearer ''key''), Sleep 5])"
  using check_snapshot_status_times_out[of flaky_world "''key''" 5 60 "JStr ''s1''"]
  by (simp add: flaky_world_def fresh_world_def getenv_api_key_def terminal_def read_status_def
      status_reply_def dict_get_def io_def)

text \<open>
  C2. With the credential set, if the poll number \<open>j + 1\<close> is the first to observe a terminal
  status and lies within \<open>max_retries\<close>, \<open>check_snapshot_status\<close> returns at that poll:
  \<open>True\<close> for \<open>ready\<close>, \<open>False\<close> for \<open>failed\<close>. It has sent \<open>j + 1\<close> requests, slept after each
  of the first \<open>j\<close>, and neither polls nor sleeps after the last.
\<close>

theorem check_snapshot_status_terminal:
  assumes "getenv_api_key w = Inr k"
    and "0 \<le> interval"
    and "j < nat max_retries"
    and "\<forall>i < j. \<not> terminal (net w (served w + i))"
    and "terminal (net w (served w + j))"
  shows "fst (check_snapshot_status sid max_retries interval w) =
      (if read_status (net w (served w + j)) = Inr (JStr ''ready'') then Inr True else Inr False) \<and>
    served (snd (check_snapshot_status sid max_retries interval w)) = served w + j + 1 \<and>
    io (trace (snd (check_snapshot_status sid max_retries interval w))) =
      io (trace w) @
      concat (replicate j [Http_get (progress_endpoint sid) (bearer k), Sleep interval]) @
      [Http_get (progress_endpoint sid) (bearer k)]"
  using poll_terminal[OF assms(2) assms(3) assms(4) assms(5), of sid max_retries k 1] assms(1)
  by (simp add: check_snapshot_status_def)

theorem check_snapshot_status_terminal_witness:
  "getenv_api_key ready_third_world = Inr ''key'' \<and>
   terminal (net ready_third_world (served ready_third_world + 2)) \<and>
   fst (check_snapshot_status (JStr ''s1'') 60 5 ready_third_world) = Inr True \<and>
   served (snd (check_snapshot_status (JStr ''s1'') 60 5 ready_third_world)) = 3 \<and>
   io (trace (snd (check_snapshot_status (JStr ''s1'') 60 5 ready_third_world))) =
     [Http_get (progress_endpoint (JStr ''s1'')) (bearer ''key''), Sleep 5,
      Http_get (progress_endpoint (JStr ''s1'')) (bearer ''key''), Sleep 5,
      Http_get (progress_endpoint (JStr ''s1'')) (bearer ''key'')]"
  using check_snapshot_status_terminal[of ready_third_world "''key''" 5 2 60 "JStr ''s1''"]
  by (simp add: ready_third_world_def fresh_world_def getenv_api_key_def terminal_def
      read_status_def status_reply_def dict_get_def io_def numeral_2_eq_2 less_Suc_eq)

section \<open>The adapters\<close>

text \<open>
  C6. For the empty URL list \<open>reddit_post_retrieval\<close> returns \<open>None\<close> and raises nothing,
  whatever the other arguments and the credential are. All it does is print one line: it
  sends no request.
\<close>

theorem reddit_post_retrieval_no_urls:
  "reddit_post_retrieval [] days_back load_all_replies comment_limit w =
     (Inr JNull, w\<lparr>trace := trace w @ [Print No_reddit_urls]\<rparr>)"
  by (simp add: reddit_post_retrieval_def emit_def)

theorem reddit_post_retrieval_no_urls_witness:
  "fst (reddit_post_retrieval [] 10 False [] no_key_world) = Inr JNull \<and>
   trace (snd (reddit_post_retrieval [] 10 False [] no_key_world)) = [Print No_reddit_urls] \<and>
   served (snd (reddit_post_retrieval [] 10 False [] no_key_world)) = 0"
  using reddit_post_retrieval_no_urls[of 10 False "[]" no_key_world]
  by (simp add: no_key_world_def fresh_world_def)

lemma serp_search_trace:
  assumes "getenv_api_key w = Inr k" and "map_of base_urls engine = Some base"
  shows "io (trace (snd (serp_search q engine w))) = io (trace w) @ [serp_request k base q]"
  using assms
  by (auto simp: serp_search_def send_api_request_def http_def emit_def io_def Let_def
      serp_request_def serp_payload_def BRIGHTDATA_API_BASE_def
      split: reply.splits sum.splits prod.splits)

lemma serp_search_result:
  assumes "getenv_api_key w = Inr k" and "map_of base_urls engine = Some base"
  shows "fst (serp_search q engine w) =
    (case net w (served w) of
       Raises e \<Rightarrow> Inr JNull
     | Body r \<Rightarrow>
         if \<not> truthy r then Inr JNull
         else (case r of
                 JObj kvs \<Rightarrow> Inr (JObj [(''knowledge'', dict_get kvs ''knowledge'' (JObj [])),
                                        (''organic'', dict_get kvs ''organic'' (JList []))])
               | _ \<Rightarrow> Inl AttributeError))"
  using assms
  by (cases "net w (served w)"; cases "case net w (served w) of Body r \<Rightarrow> r | _ \<Rightarrow> JNull")
     (auto simp: serp_search_def send_api_request_def http_def emit_def Let_def)

text \<open>
  C7, as the code has it. With the credential set, \<open>serp_search q "google"\<close> and
  \<open>serp_search q "bing"\<close> each send one request, and the two requests are the same but for
  the base URL inside the target. Given the same provider reply they return the same result.
  When the reply is a JSON object with at least one member, the result holds the reply's
  \<open>knowledge\<close> and \<open>organic\<close> members unchanged (\<open>{}\<close> and \<open>[]\<close> standing in for a member the
  reply lacks). When the reply is the empty object \<open>{}\<close>, or \<open>null\<close>, or any other falsy
  value, or when the request fails, the result is \<open>None\<close>: the guard is
  \<open>if not response_data\<close>.
\<close>

theorem serp_search_google_bing:
  assumes "getenv_api_key w = Inr k"
  shows "io (trace (snd (serp_search q ''google'' w))) =
           io (trace w) @ [serp_request k ''https://www.google.com/search'' q] \<and>
         io (trace (snd (serp_search q ''bing'' w))) =
           io (trace w) @ [serp_request k ''https://www.bing.com/search'' q] \<and>
         fst (serp_search q ''google'' w) = fst (serp_search q ''bing'' w) \<and>
         (\<forall>kvs. net w (served w) = Body (JObj kvs) \<and> kvs \<noteq> [] \<longrightarrow>
            fst (serp_search q ''google'' w) =
              Inr (JObj [(''knowledge'', dict_get kvs ''knowledge'' (JObj [])),
                         (''organic'', dict_get kvs ''organic'' (JList []))]) \<and>
            fst (serp_search q ''bing'' w) =
              Inr (JObj [(''knowledge'', dict_get kvs ''knowledge'' (JObj [])),
                         (''organic'', dict_get kvs ''organic'' (JList []))])) \<and>
         (net w (served w) = Body (JObj []) \<or> net w (served w) = Body JNull \<longrightarrow>
            fst (serp_search q ''google'' w) = Inr JNull \<and>
            fst (serp_search q ''bing'' w) = Inr JNull) \<and>
         (\<forall>r. net w (served w) = Body r \<and> \<not> truthy r \<longrightarrow>
            fst (serp_search q ''google'' w) = Inr JNull \<and>
            fst (serp_search q ''bing'' w) = Inr JNull) \<and>
         (\<forall>e. net w (served w) = Raises e \<longrightarrow>
            fst (serp_search q ''google'' w) = Inr JNull \<and>
            fst (serp_search q ''bing'' w) = Inr JNull)"
proof -
  have g: "map_of base_urls ''google'' = Some ''https://www.google.com/search''"
    and b: "map_of base_urls ''bing'' = Some ''https://www.bing.com/search''"
    by (simp_all add: base_urls_def)
  show ?thesis
    using serp_search_trace[OF assms g] serp_search_trace[OF assms b]
      serp_search_result[OF assms g] serp_search_result[OF assms b]
    by auto
qed

theorem serp_search_google_bing_witness:
  "getenv_api_key serp_world = Inr ''key'' \<and>
   io (trace (snd (serp_search ''a b'' ''google'' serp_world))) =
     [serp_request ''key'' ''https://www.google.com/search'' ''a b''] \<and>
   io (trace (snd (serp_search ''a b'' ''bing'' serp_world))) =
     [serp_request ''key'' ''https://www.bing.com/search'' ''a b''] \<and>
   fst (serp_search ''a b'' ''google'' serp_world) =
     Inr (JObj [(''knowledge'', JObj [(''name'', JStr ''n'')]),
                (''organic'', JList [JStr ''r1'', JStr ''r2''])]) \<and>
   fst (serp_search ''a b'' ''bing'' serp_world) =
     Inr (JObj [(''knowledge'', JObj [(''name'', JStr ''n'')]),
                (''organic'', JList [JStr ''r1'', JStr ''r2''])]) \<and>
   fst (serp_search ''a b'' ''google'' empty_object_world) = Inr JNull \<and>
   fst (serp_search ''a b'' ''bing'' empty_object_world) = Inr JNull \<and>
   fst (serp_search ''a b'' ''google'' null_reply_world) = Inr JNull \<and>
   fst (serp_search ''a b'' ''bing'' null_reply_world) = Inr JNull \<and>
   fst (serp_search ''a b'' ''google'' failing_provider_world) = Inr JNull \<and>
   fst (serp_search ''a b'' ''bing'' failing_provider_world) = Inr JNull"
  using serp_search_google_bing[of serp_world "''key''" "''a b''"]
    serp_search_google_bing[of empty_object_world "''key''" "''a b''"]
    serp_search_google_bing[of null_reply_world "''key''" "''a b''"]
    serp_search_google_bing[of failing_provider_world "''key''" "''a b''"]
  by (simp add: serp_world_def empty_object_world_def null_reply_world_def
      failing_provider_world_def fresh_world_def getenv_api_key_def io_def dict_get_def)

text \<open>C7 as stated fails: the provider answers \<open>{}\<close>, which is not null, and both searches
  return \<open>None\<close> instead of a result with the two fields.\<close>

theorem serp_search_empty_object_counterexample:
  "net empty_object_world (served empty_object_world) = Body (JObj []) \<and>
   JObj [] \<noteq> JNull \<and>
   fst (serp_search ''q'' ''google'' empty_object_world) = Inr JNull \<and>
   fst (serp_search ''q'' ''bing'' empty_object_world) = Inr JNull"
  by (simp add: empty_object_world_def fresh_world_def serp_search_def base_urls_def
      send_api_request_def getenv_api_key_def http_def Let_def)

lemma post_record_kept:
  "map Some (List.map_filter post_record es) = map post_record (filter is_dict es)"
proof (induction es)
  case Nil
  show ?case by (simp add: List.map_filter_simps)
next
  case (Cons e es)
  then show ?case by (cases e) (simp_all add: List.map_filter_simps post_record_def)
qed

lemma comment_record_kept:
  "map Some (List.map_filter comment_record es) = map comment_record (filter is_dict es)"
proof (induction es)
  case Nil
  show ?case by (simp add: List.map_filter_simps)
next
  case (Cons e es)
  then show ?case by (cases e) (simp_all add: List.map_filter_simps comment_record_def)
qed

lemma kept_length:
  "map Some ys = map f (filter P xs) \<Longrightarrow> length ys = length (filter P xs)"
  by (metis length_map)

text \<open>
  C8. Whenever the snapshot pipeline hands a list to \<open>reddit_search_api\<close> or to
  \<open>reddit_post_retrieval\<close>, the call raises nothing, and its output list holds exactly the
  records built from the dict entries of the download, in their order; every other entry
  is left out, and the count is the number of dict entries. (An empty download gives
  \<open>None\<close>.)
\<close>

theorem malformed_records_dropped:
  "(fst (execute_snapshot_pipeline trigger_url search_params
           (search_payload keyword date sort_by num_of_posts) ''reddit search'' w)
      = Inr (JList posts) \<longrightarrow>
    fst (reddit_search_api keyword date sort_by num_of_posts w) =
      (if posts = [] then Inr JNull
       else Inr (JObj [(''parsed_posts'', JList (List.map_filter post_record posts)),
                       (''total_found'', JNum (int (length (filter is_dict posts))))])) \<and>
    map Some (List.map_filter post_record posts) = map post_record (filter is_dict posts)) \<and>
   (urls \<noteq> [] \<and>
    fst (execute_snapshot_pipeline trigger_url retrieval_params
           (retrieval_payload urls days_back load_all_replies comment_limit)
           ''reddit comments'' w')
      = Inr (JList comments) \<longrightarrow>
    fst (reddit_post_retrieval urls days_back load_all_replies comment_limit w') =
      (if comments = [] then Inr JNull
       else Inr (JObj [(''comments'', JList (List.map_filter comment_record comments)),
                       (''total_retrieved'', JNum (int (length (filter is_dict comments))))])) \<and>
    map Some (List.map_filter comment_record comments) =
      map comment_record (filter is_dict comments))"
  using kept_length[OF post_record_kept[of posts]] kept_length[OF comment_record_kept[of comments]]
  by (auto simp: reddit_search_api_def reddit_post_retrieval_def Let_def post_record_kept
      comment_record_kept split: prod.splits)

theorem malformed_records_dropped_witness:
  "fst (reddit_search_api ''q'' ''All time'' ''Hot'' 75 (snapshot_world mixed_posts)) =
     Inr (JObj [(''parsed_posts'',
                 JList [JObj [(''title'', JStr ''t1''), (''url'', JStr ''u1'')],
                        JObj [(''title'', JNull), (''url'', JStr ''u2'')]]),
                (''total_found'', JNum 2)]) \<and>
   fst (reddit_post_retrieval [''u1''] 10 False [] (snapshot_world mixed_comments)) =
     Inr (JObj [(''comments'',
                 JList [JObj [(''comment_id'', JStr ''c1''), (''content'', JStr ''hello''),
                              (''date'', JStr ''d1'')]]),
                (''total_retrieved'', JNum 1)])"
proof -
  have p: "fst (execute_snapshot_pipeline trigger_url search_params
                  (search_payload ''q'' ''All time'' ''Hot'' 75) ''reddit search''
                  (snapshot_world mixed_posts)) =
           Inr (JList [JObj [(''title'', JStr ''t1''), (''url'', JStr ''u1'')], JNum 5, JStr ''x'',
                       JObj [(''url'', JStr ''u2'')], JList [], JNull])"
    by code_simp
  have c: "fst (execute_snapshot_pipeline trigger_url retrieval_params
                  (retrieval_payload [''u1''] 10 False []) ''reddit comments''
                  (snapshot_world mixed_comments)) =
           Inr (JList [JNull,
                  JObj [(''comment_id'', JStr ''c1''), (''comment'', JStr ''hello''),
                        (''date_posted'', JStr ''d1'')],
                  JBool True])"
    by code_simp
  from p c
    malformed_records_dropped[of "''q''" "''All time''" "''Hot''" 75 "snapshot_world mixed_posts"
      _ "[''u1'']" 10 False "[]" "snapshot_world mixed_comments"]
  show ?thesis
    by (simp add: List.map_filter_simps post_record_def comment_record_def dict_get_def)
qed

lemma no_key: "api_key w = None \<Longrightarrow> getenv_api_key w = Inl EnvironmentError"
  by (simp add: getenv_api_key_def)

lemma send_api_request_no_key:
  "api_key w = None \<Longrightarrow> send_api_request url params payload w = (Inl EnvironmentError, w)"
  by (simp add: send_api_request_def no_key)

lemma pipeline_no_key:
  "api_key w = None \<Longrightarrow>
   execute_snapshot_pipeline url params payload t w = (Inl EnvironmentError, w)"
  by (simp add: execute_snapshot_pipeline_def send_api_request_no_key)

lemma emit_api_key: "api_key (emit e w) = api_key w"
  by (simp add: emit_def)

text \<open>
  C9. Without \<open>BRIGHTDATA_API_KEY\<close> in the environment, every function that talks to the
  provider raises \<open>EnvironmentError\<close> and leaves the world as it found it: no request has
  been sent. That holds for the request helper, the two snapshot helpers, both SERP
  searches and the Reddit search, and for the comment retrieval once it has a URL to fetch.
  The exception is not turned into \<open>None\<close>: it leaves the adapter, and the three search
  nodes, which make the first adapter calls of a run, pass it on after printing their line.
\<close>

theorem missing_credential_raises:
  assumes "api_key w = None"
  shows "send_api_request url params payload w = (Inl EnvironmentError, w) \<and>
    check_snapshot_status sid max_retries interval w = (Inl EnvironmentError, w) \<and>
    fetch_snapshot_data sid fmt w = (Inl EnvironmentError, w) \<and>
    serp_search q ''google'' w = (Inl EnvironmentError, w) \<and>
    serp_search q ''bing'' w = (Inl EnvironmentError, w) \<and>
    reddit_search_api keyword date sort_by num_of_posts w = (Inl EnvironmentError, w) \<and>
    (urls \<noteq> [] \<longrightarrow>
      reddit_post_retrieval urls days_back load_all_replies comment_limit w =
        (Inl EnvironmentError, w)) \<and>
    perform_google_search s w =
      (Inl EnvironmentError, emit (Print (Google_searching (user_query s))) w) \<and>
    perform_bing_search s w =
      (Inl EnvironmentError, emit (Print (Bing_searching (user_query s))) w) \<and>
    perform_reddit_search s w =
      (Inl EnvironmentError, emit (Print (Reddit_searching (user_query s))) w)"
  using assms
  by (simp add: send_api_request_no_key pipeline_no_key no_key check_snapshot_status_def
      fetch_snapshot_data_def serp_search_def base_urls_def reddit_search_api_def
      reddit_post_retrieval_def perform_google_search_def perform_bing_search_def
      perform_reddit_search_def emit_api_key)

theorem missing_credential_raises_witness:
  "api_key no_key_world = None \<and>
   serp_search ''q'' ''google'' no_key_world = (Inl EnvironmentError, no_key_world) \<and>
   reddit_search_api ''q'' ''All time'' ''Hot'' 75 no_key_world =
     (Inl EnvironmentError, no_key_world) \<and>
   reddit_post_retrieval [''u''] 10 False [] no_key_world = (Inl EnvironmentError, no_key_world) \<and>
   fst (perform_google_search no_reddit_state no_key_world) = Inl EnvironmentError \<and>
   trace no_key_world = []"
  using missing_credential_raises[of no_key_world _ _ _ _ _ _ _ "''q''" "''q''" "''All time''"
      "''Hot''" 75 "[''u'']" 10 False "[]" no_reddit_state]
  by (simp add: no_key_world_def fresh_world_def)

text \<open>
  C10. Every result of \<open>reddit_search_api\<close> other than \<open>None\<close> is a dict whose
  \<open>total_found\<close> is the length of its \<open>parsed_posts\<close>, and every result of
  \<open>reddit_post_retrieval\<close> other than \<open>None\<close> is a dict whose \<open>total_retrieved\<close> is the
  length of its \<open>comments\<close>.
\<close>

theorem counts_equal_lengths:
  "(fst (reddit_search_api keyword date sort_by num_of_posts w) = Inr r \<and> r \<noteq> JNull \<longrightarrow>
      (\<exists>parsed_posts. r = JObj [(''parsed_posts'', JList parsed_posts),
                                 (''total_found'', JNum (int (length parsed_posts)))])) \<and>
   (fst (reddit_post_retrieval urls days_back load_all_replies comment_limit w') = Inr r' \<and>
      r' \<noteq> JNull \<longrightarrow>
      (\<exists>comments. r' = JObj [(''comments'', JList comments),
                             (''total_retrieved'', JNum (int (length comments)))]))"
  by (auto simp: reddit_search_api_def reddit_post_retrieval_def Let_def
      split: prod.splits sum.splits if_splits)

theorem counts_equal_lengths_witness:
  "(\<exists>parsed_posts.
      fst (reddit_search_api ''q'' ''All time'' ''Hot'' 75 (snapshot_world mixed_posts)) =
        Inr (JObj [(''parsed_posts'', JList parsed_posts),
                   (''total_found'', JNum (int (length parsed_posts)))]) \<and>
      length parsed_posts = 2) \<and>
   (\<exists>comments.
      fst (reddit_post_retrieval [''u1''] 10 False [] (snapshot_world mixed_comments)) =
        Inr (JObj [(''comments'', JList comments),
                   (''total_retrieved'', JNum (int (length comments)))]) \<and>
      length comments = 1)"
proof -
  have p: "fst (reddit_search_api ''q'' ''All time'' ''Hot'' 75 (snapshot_world mixed_posts)) =
     Inr (JObj [(''parsed_posts'',
                 JList [JObj [(''title'', JStr ''t1''), (''url'', JStr ''u1'')],
                        JObj [(''title'', JNull), (''url'', JStr ''u2'')]]),
                (''total_found'', JNum 2)])"
    by code_simp
  have c: "fst (reddit_post_retrieval [''u1''] 10 False [] (snapshot_world mixed_comments)) =
     Inr (JObj [(''comments'',
                 JList [JObj [(''comment_id'', JStr ''c1''), (''content'', JStr ''hello''),
                              (''date'', JStr ''d1'')]]),
                (''total_retrieved'', JNum 1)])"
    by code_simp
  from p c
    counts_equal_lengths[of "''q''" "''All time''" "''Hot''" 75 "snapshot_world mixed_posts"
      _ "[''u1'']" 10 False "[]" "snapshot_world mixed_comments" _]
  show ?thesis
    by auto
qed

section \<open>The Reddit branch of the graph\<close>

text \<open>
  C5. When the state has no Reddit search result (\<open>None\<close> or anything empty),
  \<open>extract_reddit_urls\<close> returns the empty URL list and leaves the world untouched: the
  model is not called. When there is a result and the model call raises, the node prints
  the error and returns the empty list as well. \<open>fetch_reddit_posts\<close> on a state with no
  chosen URLs returns the empty post list after printing one line, without a request. So
  in both cases the two nodes run one after the other without raising and without any
  request, and leave the empty URL list and the empty post list in the state.
\<close>

theorem reddit_branch_degrades:
  "(\<not> truthy (reddit_output s) \<longrightarrow>
      extract_reddit_urls s w = (Inr [Set_chosen_reddit_urls []], w)) \<and>
   (truthy (reddit_output s) \<and> chat_urls w (asked w) = Inl e \<longrightarrow>
      extract_reddit_urls s w =
        (Inr [Set_chosen_reddit_urls []],
         w\<lparr>asked := Suc (asked w),
           trace := trace w @
             [Invoke_structured (Reddit_url_analysis (user_query s) (reddit_output s)),
              Print Url_extraction_error]\<rparr>)) \<and>
   (chosen_reddit_urls s = None \<or> chosen_reddit_urls s = Some [] \<longrightarrow>
      fetch_reddit_posts s w =
        (Inr [Set_reddit_posts_data (JList [])],
         w\<lparr>trace := trace w @ [Print No_urls_to_fetch]\<rparr>)) \<and>
   (\<not> truthy (reddit_output s) \<or> chat_urls w (asked w) = Inl e \<longrightarrow>
      (\<exists>w'. run_nodes [Extract_reddit_urls, Fetch_reddit_posts] s w =
              (Inr (s\<lparr>chosen_reddit_urls := Some [], reddit_posts_data := JList []\<rparr>), w') \<and>
            served w' = served w \<and>
            filter is_request (trace w') = filter is_request (trace w)))"
  by (auto simp: extract_reddit_urls_def fetch_reddit_posts_def invoke_structured_def emit_def
      merge_def Let_def)

theorem reddit_branch_degrades_witness:
  "extract_reddit_urls no_reddit_state model_down_world =
     (Inr [Set_chosen_reddit_urls []], model_down_world) \<and>
   fst (extract_reddit_urls reddit_found_state model_down_world) = Inr [Set_chosen_reddit_urls []] \<and>
   trace (snd (extract_reddit_urls reddit_found_state model_down_world)) =
     [Invoke_structured (Reddit_url_analysis ''q'' (reddit_output reddit_found_state)),
      Print Url_extraction_error] \<and>
   fst (fetch_reddit_posts no_reddit_state model_down_world) =
     Inr [Set_reddit_posts_data (JList [])] \<and>
   trace (snd (fetch_reddit_posts no_reddit_state model_down_world)) = [Print No_urls_to_fetch] \<and>
   fst (run_nodes [Extract_reddit_urls, Fetch_reddit_posts] reddit_found_state model_down_world) =
     Inr (reddit_found_state\<lparr>chosen_reddit_urls := Some [], reddit_posts_data := JList []\<rparr>)"
  using reddit_branch_degrades[of no_reddit_state model_down_world OtherException]
    reddit_branch_degrades[of reddit_found_state model_down_world OtherException]
  by (auto simp: no_reddit_state_def reddit_found_state_def model_down_world_def fresh_world_def
      initial_state_def)

text \<open>
  C4 at a successful retrieval: one URL is chosen, the provider accepts the trigger, reports
  \<open>ready\<close> and delivers one comment between two malformed entries. \<open>fetch_reddit_posts\<close>
  stores what \<open>reddit_post_retrieval\<close> returned, the dict with the keys \<open>comments\<close> and
  \<open>total_retrieved\<close>, not the list of comment records inside it; the line it prints reports
  2 posts, the number of keys of that dict.
\<close>

theorem fetch_reddit_posts_stores_dict:
  "fst (fetch_reddit_posts one_url_state (snapshot_world mixed_comments)) =
     Inr [Set_reddit_posts_data
            (JObj [(''comments'',
                    JList [JObj [(''comment_id'', JStr ''c1''), (''content'', JStr ''hello''),
                                 (''date'', JStr ''d1'')]]),
                   (''total_retrieved'', JNum 1)])] \<and>
   last (trace (snd (fetch_reddit_posts one_url_state (snapshot_world mixed_comments)))) =
     Print (Posts_retrieved 2)"
  by code_simp

section \<open>Runs of the graph\<close>

lemma search_patches:
  "perform_google_search s w = (Inr p, w') \<Longrightarrow> \<exists>v. p = [Set_google_output v]"
  "perform_bing_search s w = (Inr p, w') \<Longrightarrow> \<exists>v. p = [Set_bing_output v]"
  "perform_reddit_search s w = (Inr p, w') \<Longrightarrow> \<exists>v. p = [Set_reddit_output v]"
  by (auto simp: perform_google_search_def perform_bing_search_def perform_reddit_search_def
      Let_def split: prod.splits sum.splits)

lemma reddit_patches:
  "extract_reddit_urls s w = (Inr p, w') \<Longrightarrow> \<exists>v. p = [Set_chosen_reddit_urls v]"
  "fetch_reddit_posts s w = (Inr p, w') \<Longrightarrow> \<exists>v. p = [Set_reddit_posts_data v]"
  by (auto simp: extract_reddit_urls_def fetch_reddit_posts_def Let_def
      split: prod.splits sum.splits option.splits if_splits)

lemma analysis_patches:
  "analyze_google_data s w = (Inr p, w') \<Longrightarrow> \<exists>v. p = [Set_google_summary v]"
  "analyze_bing_data s w = (Inr p, w') \<Longrightarrow> \<exists>v. p = [Set_bing_summary v]"
  "analyze_reddit_data s w = (Inr p, w') \<Longrightarrow> \<exists>v. p = [Set_reddit_summary v]"
  "combine_insights s w = (Inr p, w') \<Longrightarrow>
     \<exists>v. p = [Set_final_summary v, Add_messages [(''assistant'', v)]]"
  by (auto simp: analyze_google_data_def analyze_bing_data_def analyze_reddit_data_def
      combine_insights_def Let_def split: prod.splits sum.splits)

text \<open>One node: it sets its own summary, if it has one, and no other.\<close>

lemma node_step:
  assumes "summaries_match_runs D s" and "n \<notin> set D" and "node_function n s w = (Inr p, w')"
  shows "summaries_match_runs (n # D) (merge s p)"
proof (cases n)
  case Google_search
  with assms search_patches(1)[of s w p w'] show ?thesis
    by (auto simp: summaries_match_runs_def merge_def)
next
  case Bing_search
  with assms search_patches(2)[of s w p w'] show ?thesis
    by (auto simp: summaries_match_runs_def merge_def)
next
  case Reddit_search
  with assms search_patches(3)[of s w p w'] show ?thesis
    by (auto simp: summaries_match_runs_def merge_def)
next
  case Extract_reddit_urls
  with assms reddit_patches(1)[of s w p w'] show ?thesis
    by (auto simp: summaries_match_runs_def merge_def)
next
  case Fetch_reddit_posts
  with assms reddit_patches(2)[of s w p w'] show ?thesis
    by (auto simp: summaries_match_runs_def merge_def)
next
  case Analyze_google
  with assms analysis_patches(1)[of s w p w'] show ?thesis
    by (auto simp: summaries_match_runs_def merge_def)
next
  case Analyze_bing
  with assms analysis_patches(2)[of s w p w'] show ?thesis
    by (auto simp: summaries_match_runs_def merge_def)
next
  case Analyze_reddit
  with assms analysis_patches(3)[of s w p w'] show ?thesis
    by (auto simp: summaries_match_runs_def merge_def)
next
  case Synthesize_results
  with assms analysis_patches(4)[of s w p w'] show ?thesis
    by (auto simp: summaries_match_runs_def merge_def)
qed

lemma run_nodes_invariant:
  "summaries_match_runs D s \<Longrightarrow> admissible D ns \<Longrightarrow> fst (run_nodes ns s w) = Inr s' \<Longrightarrow>
   summaries_match_runs (rev ns @ D) s'"
proof (induction ns arbitrary: D s w)
  case Nil
  then show ?case by simp
next
  case (Cons n ns)
  obtain r w1 where nf: "node_function n s w = (r, w1)"
    by (cases "node_function n s w")
  with Cons.prems(3) obtain p where r: "r = Inr p"
    by (cases r) auto
  from Cons.prems(2) have fresh: "n \<notin> set D" and rest: "admissible (n # D) ns"
    by simp_all
  from node_step[OF Cons.prems(1) fresh nf[unfolded r]]
  have inv: "summaries_match_runs (n # D) (merge s p)" .
  from Cons.prems(3) nf r have "fst (run_nodes ns (merge s p) w1) = Inr s'"
    by simp
  from Cons.IH[OF inv rest this] show ?case
    by simp
qed

lemma admissible_closed:
  "closed_under_edges D \<Longrightarrow> admissible D ns \<Longrightarrow> closed_under_edges (rev ns @ D)"
proof (induction ns arbitrary: D)
  case Nil
  then show ?case by simp
next
  case (Cons n ns)
  from Cons.prems have "closed_under_edges (n # D)"
    by (auto simp: closed_under_edges_def)
  from Cons.IH[OF this] Cons.prems(2) show ?case
    by simp
qed

lemma closed_graph:
  assumes "closed_under_edges D"
  shows "Analyze_google \<in> set D \<Longrightarrow> Google_search \<in> set D"
    and "Analyze_bing \<in> set D \<Longrightarrow> Bing_search \<in> set D"
    and "Analyze_reddit \<in> set D \<Longrightarrow> Reddit_search \<in> set D"
    and "Synthesize_results \<in> set D \<Longrightarrow>
           Analyze_google \<in> set D \<and> Analyze_bing \<in> set D \<and> Analyze_reddit \<in> set D"
proof -
  have ext: "Extract_reddit_urls \<in> set D \<Longrightarrow>
      Google_search \<in> set D \<and> Bing_search \<in> set D \<and> Reddit_search \<in> set D"
    using assms by (force simp: closed_under_edges_def predecessors_def edges_def)
  have fetch: "Fetch_reddit_posts \<in> set D \<Longrightarrow> Extract_reddit_urls \<in> set D"
    using assms by (force simp: closed_under_edges_def predecessors_def edges_def)
  have an: "Analyze_google \<in> set D \<or> Analyze_bing \<in> set D \<or> Analyze_reddit \<in> set D
      \<Longrightarrow> Fetch_reddit_posts \<in> set D"
    using assms by (force simp: closed_under_edges_def predecessors_def edges_def)
  show "Analyze_google \<in> set D \<Longrightarrow> Google_search \<in> set D"
    using ext fetch an by blast
  show "Analyze_bing \<in> set D \<Longrightarrow> Bing_search \<in> set D"
    using ext fetch an by blast
  show "Analyze_reddit \<in> set D \<Longrightarrow> Reddit_search \<in> set D"
    using ext fetch an by blast
  show "Synthesize_results \<in> set D \<Longrightarrow>
           Analyze_google \<in> set D \<and> Analyze_bing \<in> set D \<and> Analyze_reddit \<in> set D"
    using assms by (force simp: closed_under_edges_def predecessors_def edges_def)
qed

lemma degraded_run:
  "fst (run_nodes full_schedule (initial_state ''q'') provider_down_world) = Inr degraded_state"
  by code_simp

lemma full_schedule_admissible: "admissible [] full_schedule"
  by (simp add: full_schedule_def predecessors_def edges_def)

lemma healthy_run:
  "fst (run_nodes full_schedule (initial_state ''q'') healthy_world) = Inr healthy_state"
  by code_simp

lemma run_nodes_append:
  "run_nodes (xs @ ys) s w =
     (case run_nodes xs s w of (Inl e, w1) \<Rightarrow> (Inl e, w1) | (Inr s1, w1) \<Rightarrow> run_nodes ys s1 w1)"
  by (induction xs arbitrary: s w) (auto split: prod.splits sum.splits)

lemma admissible_fresh: "admissible D ns \<Longrightarrow> distinct ns \<and> set ns \<inter> set D = {}"
proof (induction ns arbitrary: D)
  case Nil
  show ?case by simp
next
  case (Cons n ns)
  from Cons.prems have n: "n \<notin> set D" and rest: "admissible (n # D) ns" by simp_all
  from Cons.IH[OF rest] have "distinct ns" and "set ns \<inter> set (n # D) = {}" by simp_all
  with n show ?case by auto
qed

lemma admissible_prefix: "admissible D (xs @ ys) \<Longrightarrow> admissible D xs"
  by (induction xs arbitrary: D) auto

text \<open>The patch of every node, by cases.\<close>

lemma node_patch:
  assumes "node_function n s w = (Inr p, w')"
  shows "(n = Google_search \<and> (\<exists>v. p = [Set_google_output v])) \<or>
         (n = Bing_search \<and> (\<exists>v. p = [Set_bing_output v])) \<or>
         (n = Reddit_search \<and> (\<exists>v. p = [Set_reddit_output v])) \<or>
         (n = Extract_reddit_urls \<and> (\<exists>v. p = [Set_chosen_reddit_urls v])) \<or>
         (n = Fetch_reddit_posts \<and> (\<exists>v. p = [Set_reddit_posts_data v])) \<or>
         (n = Analyze_google \<and> (\<exists>v. p = [Set_google_summary v])) \<or>
         (n = Analyze_bing \<and> (\<exists>v. p = [Set_bing_summary v])) \<or>
         (n = Analyze_reddit \<and> (\<exists>v. p = [Set_reddit_summary v])) \<or>
         (n = Synthesize_results \<and>
            (\<exists>v. p = [Set_final_summary v, Add_messages [(''assistant'', v)]]))"
  using assms search_patches[of s w p w'] reddit_patches[of s w p w']
    analysis_patches[of s w p w']
  by (cases n) simp_all

lemma node_keeps:
  assumes "node_function n s w = (Inr p, w')"
  shows "user_query (merge s p) = user_query s"
    and "n \<noteq> Google_search \<Longrightarrow> google_output (merge s p) = google_output s"
    and "n \<noteq> Bing_search \<Longrightarrow> bing_output (merge s p) = bing_output s"
    and "n \<noteq> Reddit_search \<Longrightarrow> reddit_output (merge s p) = reddit_output s"
  using node_patch[OF assms] by (auto simp: merge_def)

lemma run_nodes_keeps:
  "fst (run_nodes ns s w) = Inr s' \<Longrightarrow>
     user_query s' = user_query s \<and>
     (Google_search \<notin> set ns \<longrightarrow> google_output s' = google_output s) \<and>
     (Bing_search \<notin> set ns \<longrightarrow> bing_output s' = bing_output s) \<and>
     (Reddit_search \<notin> set ns \<longrightarrow> reddit_output s' = reddit_output s)"
proof (induction ns arbitrary: s w)
  case Nil
  then show ?case by simp
next
  case (Cons n ns)
  obtain r w1 where nf: "node_function n s w = (r, w1)"
    by (cases "node_function n s w")
  with Cons.prems obtain p where r: "r = Inr p"
    by (cases r) auto
  from Cons.prems nf r have "fst (run_nodes ns (merge s p) w1) = Inr s'"
    by simp
  from Cons.IH[OF this] node_keeps[OF nf[unfolded r]] show ?case
    by auto
qed

text \<open>What a search node writes is what its adapter returned.\<close>

lemma search_node_value:
  "perform_google_search s w = (Inr p, w') \<Longrightarrow>
     fst (serp_search (user_query s) ''google'' (emit (Print (Google_searching (user_query s))) w))
       = Inr (google_output (merge s p))"
  "perform_bing_search s w = (Inr p, w') \<Longrightarrow>
     fst (serp_search (user_query s) ''bing'' (emit (Print (Bing_searching (user_query s))) w))
       = Inr (bing_output (merge s p))"
  "perform_reddit_search s w = (Inr p, w') \<Longrightarrow>
     fst (reddit_search_api (user_query s) ''All time'' ''Hot'' 75
            (emit (Print (Reddit_searching (user_query s))) w))
       = Inr (reddit_output (merge s p))"
  by (auto simp: perform_google_search_def perform_bing_search_def perform_reddit_search_def
      Let_def merge_def split: prod.splits sum.splits)

text \<open>A node that has run splits the run: the nodes before it succeeded, it returned a
  patch, and the nodes after it led to the state reached.\<close>

lemma run_split:
  assumes "fst (run_nodes (pre @ g # post) s w) = Inr s'"
  shows "\<exists>s1 w1 p w2. run_nodes pre s w = (Inr s1, w1) \<and>
           node_function g s1 w1 = (Inr p, w2) \<and>
           fst (run_nodes post (merge s1 p) w2) = Inr s'"
proof -
  obtain r1 w1 where a: "run_nodes pre s w = (r1, w1)"
    by (cases "run_nodes pre s w")
  with assms obtain s1 where r1: "r1 = Inr s1"
    by (cases r1) (auto simp: run_nodes_append)
  obtain r2 w2 where b: "node_function g s1 w1 = (r2, w2)"
    by (cases "node_function g s1 w1")
  with assms a r1 obtain p where r2: "r2 = Inr p"
    by (cases r2) (auto simp: run_nodes_append)
  from assms a r1 b r2 have "fst (run_nodes post (merge s1 p) w2) = Inr s'"
    by (simp add: run_nodes_append)
  with a r1 b r2 show ?thesis by blast
qed

text \<open>Where a search node and its analysis node stand in an admissible order.\<close>

lemma search_before_analysis:
  assumes adm: "admissible [] ns" and a: "a \<in> set ns" and ag: "a \<noteq> g"
    and edge: "\<And>D. closed_under_edges D \<Longrightarrow> a \<in> set D \<Longrightarrow> g \<in> set D"
  shows "\<exists>pre post. ns = pre @ g # post \<and> g \<notin> set post \<and> a \<in> set post"
proof -
  have c0: "closed_under_edges []"
    by (simp add: closed_under_edges_def)
  from admissible_closed[OF c0 adm] have "closed_under_edges (rev ns)"
    by simp
  from edge[OF this] a have "g \<in> set ns"
    by simp
  then obtain pre post where ns: "ns = pre @ g # post"
    by (auto dest: split_list)
  from admissible_fresh[OF adm] ns have d: "g \<notin> set pre" "g \<notin> set post"
    by auto
  from adm ns have "admissible [] pre"
    by (auto dest: admissible_prefix)
  from admissible_closed[OF c0 this] have "closed_under_edges (rev pre)"
    by simp
  from edge[OF this] d(1) have "a \<notin> set pre"
    by auto
  with a ag ns have "a \<in> set post"
    by auto
  with ns d show ?thesis by blast
qed

text \<open>
  C3, as the code has it. Take any run from the initial state: the nodes that have run so
  far, in an order that respects the edges, none of them having raised. In the state
  reached, a per-source summary is set only if the search node of that source ran earlier
  than the analysis node, and the raw-output field of the source then holds the value the
  search adapter returned when that node ran; this value is \<open>None\<close> when the search
  failed. The final summary is set only if all three summaries are set.
\<close>

theorem summaries_follow_their_searches:
  assumes "admissible [] ns" and "fst (run_nodes ns (initial_state q) w) = Inr s"
  shows "(google_summary s \<noteq> None \<longrightarrow>
            (\<exists>pre post s1 w1.
               ns = pre @ Google_search # post \<and> Analyze_google \<in> set post \<and>
               run_nodes pre (initial_state q) w = (Inr s1, w1) \<and>
               fst (serp_search q ''google'' (emit (Print (Google_searching q)) w1)) =
                 Inr (google_output s))) \<and>
         (bing_summary s \<noteq> None \<longrightarrow>
            (\<exists>pre post s1 w1.
               ns = pre @ Bing_search # post \<and> Analyze_bing \<in> set post \<and>
               run_nodes pre (initial_state q) w = (Inr s1, w1) \<and>
               fst (serp_search q ''bing'' (emit (Print (Bing_searching q)) w1)) =
                 Inr (bing_output s))) \<and>
         (reddit_summary s \<noteq> None \<longrightarrow>
            (\<exists>pre post s1 w1.
               ns = pre @ Reddit_search # post \<and> Analyze_reddit \<in> set post \<and>
               run_nodes pre (initial_state q) w = (Inr s1, w1) \<and>
               fst (reddit_search_api q ''All time'' ''Hot'' 75
                      (emit (Print (Reddit_searching q)) w1)) =
                 Inr (reddit_output s))) \<and>
         (final_summary s \<noteq> None \<longrightarrow>
            google_summary s \<noteq> None \<and> bing_summary s \<noteq> None \<and> reddit_summary s \<noteq> None)"
proof -
  have i0: "summaries_match_runs [] (initial_state q)"
    by (simp add: summaries_match_runs_def initial_state_def)
  have c0: "closed_under_edges []"
    by (simp add: closed_under_edges_def)
  have q0: "user_query (initial_state q) = q"
    by (simp add: initial_state_def)
  from run_nodes_invariant[OF i0 assms] have inv: "summaries_match_runs (rev ns) s"
    by simp
  from admissible_closed[OF c0 assms(1)] have cl: "closed_under_edges (rev ns)"
    by simp
  have g: "\<exists>pre post s1 w1.
               ns = pre @ Google_search # post \<and> Analyze_google \<in> set post \<and>
               run_nodes pre (initial_state q) w = (Inr s1, w1) \<and>
               fst (serp_search q ''google'' (emit (Print (Google_searching q)) w1)) =
                 Inr (google_output s)"
    if "google_summary s \<noteq> None"
  proof -
    from that inv have a: "Analyze_google \<in> set ns"
      by (simp add: summaries_match_runs_def)
    from search_before_analysis[OF assms(1) a, of Google_search] closed_graph(1)
    obtain pre post where ns: "ns = pre @ Google_search # post"
      and post: "Google_search \<notin> set post" "Analyze_google \<in> set post"
      by auto
    from run_split[OF assms(2)[unfolded ns]] obtain s1 w1 p w2 where
      r1: "run_nodes pre (initial_state q) w = (Inr s1, w1)"
      and r2: "perform_google_search s1 w1 = (Inr p, w2)"
      and r3: "fst (run_nodes post (merge s1 p) w2) = Inr s"
      by auto
    from run_nodes_keeps[of pre "initial_state q" w s1] r1 q0 have q1: "user_query s1 = q"
      by simp
    from run_nodes_keeps[OF r3] post(1) have "google_output s = google_output (merge s1 p)"
      by simp
    with search_node_value(1)[OF r2] q1 ns post(2) r1 show ?thesis
      by auto
  qed
  have b: "\<exists>pre post s1 w1.
               ns = pre @ Bing_search # post \<and> Analyze_bing \<in> set post \<and>
               run_nodes pre (initial_state q) w = (Inr s1, w1) \<and>
               fst (serp_search q ''bing'' (emit (Print (Bing_searching q)) w1)) =
                 Inr (bing_output s)"
    if "bing_summary s \<noteq> None"
  proof -
    from that inv have a: "Analyze_bing \<in> set ns"
      by (simp add: summaries_match_runs_def)
    from search_before_analysis[OF assms(1) a, of Bing_search] closed_graph(2)
    obtain pre post where ns: "ns = pre @ Bing_search # post"
      and post: "Bing_search \<notin> set post" "Analyze_bing \<in> set post"
      by auto
    from run_split[OF assms(2)[unfolded ns]] obtain s1 w1 p w2 where
      r1: "run_nodes pre (initial_state q) w = (Inr s1, w1)"
      and r2: "perform_bing_search s1 w1 = (Inr p, w2)"
      and r3: "fst (run_nodes post (merge s1 p) w2) = Inr s"
      by auto
    from run_nodes_keeps[of pre "initial_state q" w s1] r1 q0 have q1: "user_query s1 = q"
      by simp
    from run_nodes_keeps[OF r3] post(1) have "bing_output s = bing_output (merge s1 p)"
      by simp
    with search_node_value(2)[OF r2] q1 ns post(2) r1 show ?thesis
      by auto
  qed
  have r: "\<exists>pre post s1 w1.
               ns = pre @ Reddit_search # post \<and> Analyze_reddit \<in> set post \<and>
               run_nodes pre (initial_state q) w = (Inr s1, w1) \<and>
               fst (reddit_search_api q ''All time'' ''Hot'' 75
                      (emit (Print (Reddit_searching q)) w1)) =
                 Inr (reddit_output s)"
    if "reddit_summary s \<noteq> None"
  proof -
    from that inv have a: "Analyze_reddit \<in> set ns"
      by (simp add: summaries_match_runs_def)
    from search_before_analysis[OF assms(1) a, of Reddit_search] closed_graph(3)
    obtain pre post where ns: "ns = pre @ Reddit_search # post"
      and post: "Reddit_search \<notin> set post" "Analyze_reddit \<in> set post"
      by auto
    from run_split[OF assms(2)[unfolded ns]] obtain s1 w1 p w2 where
      r1: "run_nodes pre (initial_state q) w = (Inr s1, w1)"
      and r2: "perform_reddit_search s1 w1 = (Inr p, w2)"
      and r3: "fst (run_nodes post (merge s1 p) w2) = Inr s"
      by auto
    from run_nodes_keeps[of pre "initial_state q" w s1] r1 q0 have q1: "user_query s1 = q"
      by simp
    from run_nodes_keeps[OF r3] post(1) have "reddit_output s = reddit_output (merge s1 p)"
      by simp
    with search_node_value(3)[OF r2] q1 ns post(2) r1 show ?thesis
      by auto
  qed
  from inv closed_graph(4)[OF cl] have f:
    "final_summary s \<noteq> None \<longrightarrow>
       google_summary s \<noteq> None \<and> bing_summary s \<noteq> None \<and> reddit_summary s \<noteq> None"
    by (auto simp: summaries_match_runs_def)
  from g b r f show ?thesis by blast
qed

theorem summaries_follow_their_searches_witness:
  "admissible [] full_schedule \<and>
   fst (run_nodes full_schedule (initial_state ''q'') healthy_world) = Inr healthy_state \<and>
   google_summary healthy_state \<noteq> None \<and>
   google_output healthy_state =
     JObj [(''knowledge'', JObj []), (''organic'', JList [JStr ''g1''])] \<and>
   (\<exists>pre post s1 w1.
      full_schedule = pre @ Google_search # post \<and> Analyze_google \<in> set post \<and>
      run_nodes pre (initial_state ''q'') healthy_world = (Inr s1, w1) \<and>
      fst (serp_search ''q'' ''google'' (emit (Print (Google_searching ''q'')) w1)) =
        Inr (JObj [(''knowledge'', JObj []), (''organic'', JList [JStr ''g1''])])) \<and>
   (\<exists>pre post s1 w1.
      full_schedule = pre @ Reddit_search # post \<and> Analyze_reddit \<in> set post \<and>
      run_nodes pre (initial_state ''q'') healthy_world = (Inr s1, w1) \<and>
      fst (reddit_search_api ''q'' ''All time'' ''Hot'' 75
             (emit (Print (Reddit_searching ''q'')) w1)) =
        Inr (JObj [(''parsed_posts'',
                    JList [JObj [(''title'', JStr ''t1''), (''url'', JStr ''u1'')]]),
                   (''total_found'', JNum 1)])) \<and>
   final_summary healthy_state \<noteq> None"
  using summaries_follow_their_searches[OF full_schedule_admissible healthy_run]
    full_schedule_admissible healthy_run
  by (simp add: healthy_state_def)

text \<open>C3 as stated fails: when every provider request fails, the run still completes, and
  in its last state all three summaries are set while all three raw outputs are \<open>None\<close>.\<close>

theorem summary_without_raw_output_counterexample:
  "admissible [] full_schedule \<and>
   fst (run_nodes full_schedule (initial_state ''q'') provider_down_world) = Inr degraded_state \<and>
   google_summary degraded_state = Some ''summary'' \<and> google_output degraded_state = JNull \<and>
   bing_summary degraded_state = Some ''summary'' \<and> bing_output degraded_state = JNull \<and>
   reddit_summary degraded_state = Some ''summary'' \<and> reddit_output degraded_state = JNull"
  using full_schedule_admissible degraded_run
  by (simp add: degraded_state_def)

end
